theory Spec2Isabelle
  imports Complex_Main "HOL-Library.Word"
begin

section \<open>Terminal monitor (terminalMonitor.ts)\<close>

text \<open>
  The listener registered on \<open>onDidEndTerminalShellExecution\<close> reads \<open>event.exitCode\<close>,
  a \<open>number | undefined\<close>; \<open>undefined\<close> is \<open>None\<close>. The callback \<open>onError\<close> is a
  transformer of the state it acts on.
\<close>

record shell_execution_end =
  exitCode :: "int option"

definition onDidEndTerminalShellExecution ::
    "('s \<Rightarrow> 's) \<Rightarrow> shell_execution_end \<Rightarrow> 's \<Rightarrow> 's" where
  "onDidEndTerminalShellExecution onError event s =
     (if exitCode event \<noteq> None \<and> exitCode event \<noteq> Some 0 then onError s else s)"

text \<open>The monitor over a sequence of delivered events.\<close>

fun TerminalMonitor :: "('s \<Rightarrow> 's) \<Rightarrow> shell_execution_end list \<Rightarrow> 's \<Rightarrow> 's" where
  "TerminalMonitor onError [] s = s"
| "TerminalMonitor onError (event # events) s =
     TerminalMonitor onError events (onDidEndTerminalShellExecution onError event s)"


section \<open>Rendering integers (JavaScript \<open>String(n)\<close> on an integral number)\<close>

text \<open>
  \<open>String(n)\<close> and template interpolation of an integral number below \<open>10^21\<close> in
  magnitude give its decimal digits, with a leading minus sign when negative.
\<close>

definition digit_char :: "nat \<Rightarrow> char" where
  "digit_char d = ''0123456789'' ! d"

fun String_nat :: "nat \<Rightarrow> string" where
  "String_nat n =
     (if n < 10 then [digit_char n] else String_nat (n div 10) @ [digit_char (n mod 10)])"

declare String_nat.simps [simp del]

definition String_int :: "int \<Rightarrow> string" where
  "String_int i = (if i < 0 then CHR ''-'' # String_nat (nat (- i)) else String_nat (nat i))"

section \<open>Playback engine (audioPlayer.ts)\<close>

definition MAX_PLAYBACK_MS :: nat where
  "MAX_PLAYBACK_MS = 20000"

record PlaybackOptions =
  filePath :: string
  volume :: real

text \<open>One call of \<open>execFile(cmd, args, callback)\<close>.\<close>

record exec_call =
  cmd :: string
  args :: "string list"

text \<open>
  What the callback of \<open>execFile\<close> learns about the child: it could not be started,
  it exited with a code, or it was terminated by a signal. The callback's \<open>err\<close> is
  non-null in every case but exit code 0.
\<close>

datatype child_result = SpawnError | Exit int | Signalled

definition callback_err :: "child_result \<Rightarrow> bool" where
  "callback_err r = (r \<noteq> Exit 0)"

text \<open>\<open>Math.round(x)\<close> is \<open>floor(x + 0.5)\<close>.\<close>

definition Math_round :: "real \<Rightarrow> int" where
  "Math_round x = \<lfloor>x + 1 / 2\<rfloor>"

text \<open>
  The table \<open>players\<close> of \<open>tryLinuxPlayers\<close>. \<open>String_number\<close> stands for
  JavaScript's rendering of a number that need not be integral.
\<close>

definition players :: "(real \<Rightarrow> string) \<Rightarrow> string \<Rightarrow> real \<Rightarrow> exec_call list" where
  "players String_number fp vol =
     [\<lparr>cmd = ''paplay'',
       args = [''--volume'', String_int (Math_round ((vol / 100) * 65536)), fp]\<rparr>,
      \<lparr>cmd = ''aplay'', args = [fp]\<rparr>,
      \<lparr>cmd = ''mpv'', args = [''--no-video'', ''--volume='' @ String_number vol, fp]\<rparr>]"

text \<open>
  \<open>tryNext(index)\<close>: the calls of \<open>execFile\<close> it makes, in order. \<open>run\<close> gives the
  result each call reports to its callback.
\<close>

function tryNext :: "(exec_call \<Rightarrow> child_result) \<Rightarrow> exec_call list \<Rightarrow> nat \<Rightarrow> exec_call list" where
  "tryNext run ps index =
     (if index \<ge> length ps then []
      else (let player = ps ! index in
            player # (if callback_err (run player) then tryNext run ps (index + 1) else [])))"
  by pat_completeness auto
termination
  by (relation "measure (\<lambda>(run, ps, index). length ps - index)") auto

declare tryNext.simps [simp del]

definition tryLinuxPlayers ::
    "(real \<Rightarrow> string) \<Rightarrow> (exec_call \<Rightarrow> child_result) \<Rightarrow> string \<Rightarrow> real \<Rightarrow> exec_call list" where
  "tryLinuxPlayers String_number run fp vol = tryNext run (players String_number fp vol) 0"

text \<open>\<open>s.endsWith(suffix)\<close> and \<open>filePath.replace(/'/g, "''")\<close>.\<close>

definition endsWith :: "string \<Rightarrow> string \<Rightarrow> bool" where
  "endsWith s suffix =
     (length suffix \<le> length s \<and> drop (length s - length suffix) s = suffix)"

definition escape_single_quotes :: "string \<Rightarrow> string" where
  "escape_single_quotes s = concat (map (\<lambda>c. if c = CHR 0x27 then [c, c] else [c]) s)"

definition playWindows :: "string \<Rightarrow> exec_call" where
  "playWindows fp =
     (if endsWith fp ''.wav''
      then \<lparr>cmd = ''powershell'',
            args = [''-NoProfile'', ''-Command'',
                    ''(New-Object System.Media.SoundPlayer '' @ [CHR 0x27] @ escape_single_quotes fp
                      @ [CHR 0x27] @ '').PlaySync()'']\<rparr>
      else \<lparr>cmd = ''powershell'',
            args = [''-NoProfile'', ''-Command'',
                    ''Start-Process wmplayer -ArgumentList '' @ [CHR 0x27, CHR 0x22] @ fp
                      @ [CHR 0x22, CHR 0x27] @ '' -Wait'']\<rparr>)"

text \<open>The volume argument of \<open>afplay -v\<close>: \<open>Math.max(0, volume) / 50\<close>.\<close>

definition afplay_volume :: "real \<Rightarrow> real" where
  "afplay_volume vol = max 0 vol / 50"

text \<open>
  \<open>playSound(options)\<close> on the platform \<open>os.platform()\<close> reports: the calls of
  \<open>execFile\<close> it leads to, in order. Every one of them is handed to \<open>killAfterTimeout\<close>.
\<close>

definition playSound ::
    "(real \<Rightarrow> string) \<Rightarrow> (exec_call \<Rightarrow> child_result) \<Rightarrow> string \<Rightarrow> PlaybackOptions
       \<Rightarrow> exec_call list" where
  "playSound String_number run platform options =
     (if platform = ''darwin''
      then [\<lparr>cmd = ''afplay'',
             args = [''-v'', String_number (afplay_volume (volume options)), filePath options]\<rparr>]
      else if platform = ''linux''
      then tryLinuxPlayers String_number run (filePath options) (volume options)
      else if platform = ''win32'' then [playWindows (filePath options)]
      else [])"

subsection \<open>The kill timer\<close>

text \<open>
  How the program behind a command behaves when started: it cannot be started at all, or
  it runs and exits by itself after some ms with an exit code, or (\<open>None\<close>) it never
  exits by itself.
\<close>

datatype program = Missing | Runs "nat option" int

text \<open>
  A \<open>ChildProcess\<close>: the call that made it and the time of the call, whether a process
  is running behind it, the flag \<open>proc.killed\<close>, the armed timer (its due time) and the
  times at which \<open>proc.kill()\<close> was called.
\<close>

record child =
  call :: exec_call
  started_at :: nat
  running :: bool
  killed :: bool
  timer :: "nat option"
  kill_calls :: "nat list"

text \<open>\<open>execFile(cmd, args, callback)\<close> at time \<open>now\<close>: the child it returns.\<close>

definition execFile :: "(exec_call \<Rightarrow> program) \<Rightarrow> nat \<Rightarrow> exec_call \<Rightarrow> child" where
  "execFile progs now c =
     \<lparr>call = c, started_at = now, running = (progs c \<noteq> Missing), killed = False,
      timer = None, kill_calls = []\<rparr>"

text \<open>
  \<open>killAfterTimeout(proc)\<close>, called at time \<open>now\<close>: \<open>setTimeout\<close> arms a timer
  \<open>MAX_PLAYBACK_MS\<close> later, and the listener below is put on the child's \<open>exit\<close> event.
\<close>

definition killAfterTimeout :: "nat \<Rightarrow> child \<Rightarrow> child" where
  "killAfterTimeout now proc = proc\<lparr>timer := Some (now + MAX_PLAYBACK_MS)\<rparr>"

text \<open>
  \<open>proc.kill()\<close> at time \<open>t\<close>: the signal reaches a running process only, and
  \<open>proc.killed\<close> is set when it does.
\<close>

definition kill :: "nat \<Rightarrow> child \<Rightarrow> child" where
  "kill t proc =
     proc\<lparr>killed := (killed proc \<or> running proc), kill_calls := kill_calls proc @ [t]\<rparr>"

text \<open>The timer's callback \<open>() => { if (!proc.killed) proc.kill(); }\<close>, run at time \<open>t\<close>.\<close>

definition timer_callback :: "nat \<Rightarrow> child \<Rightarrow> child" where
  "timer_callback t proc = (if \<not> killed proc then kill t proc else proc)"

text \<open>The exit listener \<open>() => clearTimeout(timer)\<close>.\<close>

definition exit_listener :: "child \<Rightarrow> child" where
  "exit_listener proc = proc\<lparr>timer := None\<rparr>"

text \<open>
  The event loop. A timer runs its callback once, when it is still armed and due; a
  cleared timer never runs. The exit of the process runs the exit listener.
\<close>

datatype loop_event = Timeout | ChildExit

definition dispatch :: "child \<Rightarrow> nat \<times> loop_event \<Rightarrow> child" where
  "dispatch proc e =
     (case e of
        (t, Timeout) \<Rightarrow>
          (case timer proc of
             Some due \<Rightarrow> if due \<le> t then timer_callback t (proc\<lparr>timer := None\<rparr>) else proc
           | None \<Rightarrow> proc)
      | (t, ChildExit) \<Rightarrow> exit_listener (proc\<lparr>running := False\<rparr>))"

text \<open>
  The event the loop delivers next: of the timer armed in the child, due at its due time,
  and the exit of the process, expected at \<open>exit_at\<close>, the earlier one; the timer when
  both come at the same time.
\<close>

definition next_event :: "child \<Rightarrow> nat option \<Rightarrow> (nat \<times> loop_event) option" where
  "next_event proc exit_at =
     (case timer proc of
        None \<Rightarrow> (case exit_at of None \<Rightarrow> None | Some x \<Rightarrow> Some (x, ChildExit))
      | Some due \<Rightarrow>
          (case exit_at of
             None \<Rightarrow> Some (due, Timeout)
           | Some x \<Rightarrow> if x < due then Some (x, ChildExit) else Some (due, Timeout)))"

text \<open>When a program started at \<open>start\<close> exits by itself.\<close>

definition exits_at :: "program \<Rightarrow> nat \<Rightarrow> nat option" where
  "exits_at prog start =
     (case prog of
        Missing \<Rightarrow> None
      | Runs natural_exit code \<Rightarrow> map_option (\<lambda>d. start + d) natural_exit)"

text \<open>
  The life of a child from its creation on: the loop delivers the next event, and then
  the one that is left, if any. A process that was sent the signal exits then; a process
  exits once.
\<close>

definition lifetime :: "(exec_call \<Rightarrow> program) \<Rightarrow> child \<Rightarrow> child" where
  "lifetime progs proc =
     (case next_event proc (exits_at (progs (call proc)) (started_at proc)) of
        None \<Rightarrow> proc
      | Some (t, ChildExit) \<Rightarrow>
          (let exited = dispatch proc (t, ChildExit) in
           case next_event exited None of
             None \<Rightarrow> exited
           | Some e \<Rightarrow> dispatch exited e)
      | Some (t, Timeout) \<Rightarrow>
          (let fired = dispatch proc (t, Timeout);
               exit_at = (if killed fired then Some t
                          else exits_at (progs (call proc)) (started_at proc))
           in case next_event fired exit_at of
                None \<Rightarrow> fired
              | Some e \<Rightarrow> dispatch fired e))"

text \<open>
  What the callback of \<open>execFile\<close> is called with and when, read off the child at the
  end of its life; \<open>None\<close> when it is never called.
\<close>

definition callback :: "(exec_call \<Rightarrow> program) \<Rightarrow> child \<Rightarrow> (child_result \<times> nat) option" where
  "callback progs proc =
     (case progs (call proc) of
        Missing \<Rightarrow> Some (SpawnError, started_at proc)
      | Runs natural_exit code \<Rightarrow>
          if killed proc then Some (Signalled, last (kill_calls proc))
          else (case natural_exit of
                  None \<Rightarrow> None
                | Some d \<Rightarrow> Some (Exit code, started_at proc + d)))"

text \<open>
  \<open>playSound\<close> with its children and the clock: the children made, in order, each at
  the end of its life. Every \<open>execFile\<close> of the source is wrapped in, or followed by,
  \<open>killAfterTimeout\<close>; \<open>tryNext(index + 1)\<close> runs in the callback of the child before.
\<close>

function tryNext_at ::
    "(exec_call \<Rightarrow> program) \<Rightarrow> exec_call list \<Rightarrow> nat \<Rightarrow> nat \<Rightarrow> child list" where
  "tryNext_at progs ps index now =
     (if index \<ge> length ps then []
      else (let player = ps ! index;
                proc = lifetime progs (killAfterTimeout now (execFile progs now player))
            in proc #
               (case callback progs proc of
                  None \<Rightarrow> []
                | Some (result, t) \<Rightarrow>
                    if callback_err result then tryNext_at progs ps (index + 1) t else [])))"
  by pat_completeness auto
termination
  by (relation "measure (\<lambda>(progs, ps, index, now). length ps - index)") auto

declare tryNext_at.simps [simp del]

definition playSound_at ::
    "(real \<Rightarrow> string) \<Rightarrow> (exec_call \<Rightarrow> program) \<Rightarrow> nat \<Rightarrow> string \<Rightarrow> PlaybackOptions
       \<Rightarrow> child list" where
  "playSound_at String_number progs now platform options =
     (if platform = ''darwin''
      then [lifetime progs (killAfterTimeout now (execFile progs now
              \<lparr>cmd = ''afplay'',
               args = [''-v'', String_number (afplay_volume (volume options)),
                       filePath options]\<rparr>))]
      else if platform = ''linux''
      then tryNext_at progs (players String_number (filePath options) (volume options)) 0 now
      else if platform = ''win32''
      then [lifetime progs (killAfterTimeout now (execFile progs now
              (playWindows (filePath options))))]
      else [])"

text \<open>What a program reports to the callback when it is cut off at the ceiling.\<close>

definition result_within_cap :: "program \<Rightarrow> child_result" where
  "result_within_cap prog =
     (case prog of
        Missing \<Rightarrow> SpawnError
      | Runs natural_exit code \<Rightarrow>
          (case natural_exit of
             None \<Rightarrow> Signalled
           | Some d \<Rightarrow> if d < MAX_PLAYBACK_MS then Exit code else Signalled))"

text \<open>Three programs: one that is missing, one that hangs, one that plays for 5 s.\<close>

definition example_programs :: "exec_call \<Rightarrow> program" where
  "example_programs c =
     (if cmd c = ''paplay'' then Missing
      else if cmd c = ''aplay'' then Runs None 0
      else Runs (Some 5000) 0)"

section \<open>Dispatch and debounce (sfxManager.ts)\<close>

definition DEBOUNCE_MS :: int where
  "DEBOUNCE_MS = 300"

record SfxManager =
  lastPlayTime :: int

text \<open>The field initialiser \<open>lastPlayTime = 0\<close>.\<close>

definition new_SfxManager :: SfxManager where
  "new_SfxManager = \<lparr>lastPlayTime = 0\<rparr>"

text \<open>
  What one call of \<open>handleError\<close> reads from outside: \<open>Date.now()\<close>, \<open>isEnabled()\<close>,
  the result of \<open>resolveSelectedSound()\<close> (\<open>undefined\<close> is \<open>None\<close>) and the configured
  volume.
\<close>

record alert =
  Date_now :: int
  isEnabled :: bool
  resolveSelectedSound :: "string option"
  config_volume :: real

text \<open>
  \<open>handleError()\<close>: the new state and the request passed to \<open>playSound\<close>, if any.
  \<open>!filePath\<close> holds for \<open>undefined\<close> and for the empty string.
\<close>

definition handleError :: "SfxManager \<Rightarrow> alert \<Rightarrow> SfxManager \<times> PlaybackOptions option" where
  "handleError this a =
     (if \<not> isEnabled a then (this, None)
      else if Date_now a - lastPlayTime this < DEBOUNCE_MS then (this, None)
      else (let this' = this\<lparr>lastPlayTime := Date_now a\<rparr> in
            case resolveSelectedSound a of
              None \<Rightarrow> (this', None)
            | Some fp \<Rightarrow>
                if fp = [] then (this', None)
                else (this', Some \<lparr>filePath = fp, volume = config_volume a\<rparr>)))"

text \<open>
  A sequence of alerts delivered one after the other: the calls of \<open>playSound\<close> made,
  each with the time of the alert that made it.
\<close>

fun handleErrors :: "SfxManager \<Rightarrow> alert list \<Rightarrow> (int \<times> PlaybackOptions) list" where
  "handleErrors this [] = []"
| "handleErrors this (a # as) =
     (case handleError this a of
        (this', None) \<Rightarrow> handleErrors this' as
      | (this', Some request) \<Rightarrow> (Date_now a, request) # handleErrors this' as)"

section \<open>Fetcher (\<open>SfxManager.downloadFromUrl\<close>)\<close>

type_synonym bytes = "8 word list"

definition MAX_FILE_BYTES :: nat where
  "MAX_FILE_BYTES = 5 * 1024 * 1024"

text \<open>
  What \<open>client.get(url, ...)\<close> does: it throws at once (\<open>http.get\<close> and \<open>https.get\<close>
  refuse a URL whose protocol is not their own), or the request has an \<open>error\<close> event,
  with the error's message, or a response comes with its status code, its \<open>location\<close>
  header (\<open>undefined\<close> is \<open>None\<close>) and the chunks of its body in the order of the
  \<open>data\<close> events.
\<close>

datatype response =
    GetThrows string
  | RequestError string
  | Response int "string option" "bytes list"

text \<open>
  The values the promise is rejected with: an \<open>Error\<close> made by \<open>downloadFromUrl\<close> with
  its message, the error object of the request passed on as it is, the \<open>TypeError\<close>
  thrown by \<open>new URL(url)\<close>, or what \<open>client.get\<close> threw inside the executor of the
  promise.
\<close>

datatype js_error = Error string | RequestFailed string | InvalidURL | Thrown string

text \<open>
  The world outside: \<open>extname_of_url\<close> stands for
  \<open>path.extname(new URL(url).pathname)\<close>, \<open>None\<close> when the constructor throws;
  the \<open>n\<close>-th invocation reads \<open>Date.now()\<close> as \<open>clock n\<close> and its request for \<open>url\<close>
  is answered by \<open>http_get n url\<close>.
\<close>

record world =
  extname_of_url :: "string \<Rightarrow> string option"
  clock :: "nat \<Rightarrow> int"
  http_get :: "nat \<Rightarrow> string \<Rightarrow> response"

text \<open>The files on disk, by path, and the number of invocations made so far.\<close>

record disk =
  files :: "string \<rightharpoonup> bytes"
  calls :: nat

text \<open>\<open>`custom-${Date.now()}${ext}`\<close> with \<open>ext = extname || '.mp3'\<close>.\<close>

definition dest_filename :: "int \<Rightarrow> string \<Rightarrow> string" where
  "dest_filename now extname =
     ''custom-'' @ String_int now @ (if extname = [] then ''.mp3'' else extname)"

text \<open>
  \<open>path.join(dir, filename)\<close> for a normalised directory and a file name that holds no
  separator.
\<close>

definition path_join :: "string \<Rightarrow> string \<Rightarrow> string" where
  "path_join dir filename = dir @ ''/'' @ filename"

definition destPath :: "string \<Rightarrow> int \<Rightarrow> string \<Rightarrow> string" where
  "destPath downloadDir now extname = path_join downloadDir (dest_filename now extname)"

text \<open>
  The \<open>data\<close> listener and the pipe into the file: \<open>received\<close> counts the bytes seen,
  \<open>written\<close> is what the file holds. \<open>None\<close> when the count passes the cap, else the
  content of the file at the \<open>finish\<close> event.
\<close>

fun stream_body :: "nat \<Rightarrow> bytes \<Rightarrow> bytes list \<Rightarrow> bytes option" where
  "stream_body received written [] = Some written"
| "stream_body received written (chunk # chunks) =
     (let received' = received + length chunk in
      if received' > MAX_FILE_BYTES then None
      else stream_body received' (written @ chunk) chunks)"

text \<open>
  \<open>downloadFromUrl(url)\<close>: how the promise settles (\<open>Inl\<close> rejected, \<open>Inr\<close> resolved
  with the path) and the disk then; \<open>None\<close> when it never settles. \<open>createWriteStream\<close>
  creates or truncates the file; \<open>unlink\<close> removes it; the file operations are taken
  to complete in the order of the program, though the source awaits none of them. The write stream is created
  before \<open>client.get\<close> is called, and an exception of \<open>client.get\<close> rejects the promise
  with no handler of \<open>downloadFromUrl\<close> run.
\<close>

partial_function (option) downloadFromUrl ::
    "world \<Rightarrow> string \<Rightarrow> string \<Rightarrow> disk \<Rightarrow> ((js_error + string) \<times> disk) option" where
  "downloadFromUrl w downloadDir url st =
     (case extname_of_url w url of
        None \<Rightarrow> Some (Inl InvalidURL, st)
      | Some extname \<Rightarrow>
          (let dest = destPath downloadDir (clock w (calls st)) extname;
               opened = \<lparr>files = (files st)(dest \<mapsto> []), calls = Suc (calls st)\<rparr>;
               unlinked = opened\<lparr>files := (files opened)(dest := None)\<rparr>
           in case http_get w (calls st) url of
                GetThrows message \<Rightarrow> Some (Inl (Thrown message), opened)
              | RequestError message \<Rightarrow> Some (Inl (RequestFailed message), unlinked)
              | Response statusCode location chunks \<Rightarrow>
                  if statusCode = 301 \<or> statusCode = 302 then
                    (case location of
                       None \<Rightarrow> Some (Inl (Error ''Redirect with no location header''), unlinked)
                     | Some l \<Rightarrow>
                         if l = [] then
                           Some (Inl (Error ''Redirect with no location header''), unlinked)
                         else downloadFromUrl w downloadDir l unlinked)
                  else if statusCode \<noteq> 200 then
                    Some (Inl (Error (''Download failed with status '' @ String_int statusCode)),
                          unlinked)
                  else
                    (case stream_body 0 [] chunks of
                       None \<Rightarrow> Some (Inl (Error ''File too large (max 5MB)''), unlinked)
                     | Some content \<Rightarrow>
                         Some (Inr dest, opened\<lparr>files := (files opened)(dest \<mapsto> content)\<rparr>))))"

text \<open>The disk after an invocation that closed and unlinked its file.\<close>

definition after_unlink :: "string \<Rightarrow> int \<Rightarrow> string \<Rightarrow> disk \<Rightarrow> disk" where
  "after_unlink downloadDir now extname st =
     \<lparr>files = (files st)(destPath downloadDir now extname := None), calls = Suc (calls st)\<rparr>"

text \<open>
  Following \<open>n\<close> redirects from a URL: the location and the disk reached when the next
  \<open>n\<close> responses are all redirects (301 or 302) that carry a location.
\<close>

fun redirected :: "world \<Rightarrow> string \<Rightarrow> nat \<Rightarrow> string \<Rightarrow> disk \<Rightarrow> (string \<times> disk) option" where
  "redirected w downloadDir 0 url st = Some (url, st)"
| "redirected w downloadDir (Suc n) url st =
     (case extname_of_url w url of
        None \<Rightarrow> None
      | Some extname \<Rightarrow>
          (case http_get w (calls st) url of
             GetThrows message \<Rightarrow> None
           | RequestError message \<Rightarrow> None
           | Response statusCode location chunks \<Rightarrow>
               (case location of
                  None \<Rightarrow> None
                | Some l \<Rightarrow>
                    if (statusCode = 301 \<or> statusCode = 302) \<and> l \<noteq> []
                    then redirected w downloadDir n l
                           (after_unlink downloadDir (clock w (calls st)) extname st)
                    else None)))"

subsection \<open>Concrete worlds\<close>

text \<open>
  \<open>path.extname(new URL(url).pathname)\<close> on the URLs used below; \<open>new URL\<close> throws on
  a string that is no absolute URL.
\<close>

definition example_extname :: "string \<Rightarrow> string option" where
  "example_extname url =
     (if url = ''https://sounds.example/boom.wav'' then Some ''.wav''
      else if url = ''ftp://sounds.example/boom.wav'' then Some ''.wav''
      else if url = ''https://sounds.example/huge.mp3'' then Some ''.mp3''
      else if url = ''https://sounds.example/clip'' then Some []
      else if url = ''http://loop.example/a.mp3'' then Some ''.mp3''
      else None)"

definition example_clock :: "nat \<Rightarrow> int" where
  "example_clock n = 1700000000000 + 40 * int n"

definition empty_disk :: disk where
  "empty_disk = \<lparr>files = Map.empty, calls = 0\<rparr>"

text \<open>
  A server with one small file, and a body of one byte more than the cap; \<open>http.get\<close>
  throws \<open>ERR_INVALID_PROTOCOL\<close> on the \<open>ftp:\<close> URL.
\<close>

definition file_server :: world where
  "file_server =
     \<lparr>extname_of_url = example_extname, clock = example_clock,
      http_get = (\<lambda>n url.
        if url = ''https://sounds.example/boom.wav''
        then Response 200 None [[82, 73, 70, 70], [1, 2]]
        else if url = ''https://sounds.example/huge.mp3''
        then Response 200 None [replicate 5242880 0, [0]]
        else if url = ''ftp://sounds.example/boom.wav''
        then GetThrows ''Protocol ftp: not supported. Expected http:''
        else Response 404 None [])\<rparr>"

text \<open>A server that answers every request with a redirect to the same URL.\<close>

definition loop_server :: world where
  "loop_server =
     \<lparr>extname_of_url = example_extname, clock = example_clock,
      http_get = (\<lambda>n url. Response 302 (Some ''http://loop.example/a.mp3'') [])\<rparr>"

text \<open>A server that redirects the first six requests and then serves the file.\<close>

definition six_redirects :: world where
  "six_redirects =
     \<lparr>extname_of_url = example_extname, clock = example_clock,
      http_get = (\<lambda>n url.
        if n < 6 then Response 302 (Some ''http://loop.example/a.mp3'') []
        else Response 200 None [[1, 2, 3]])\<rparr>"

section \<open>Theorems\<close>

lemma listener_cases:
  "onDidEndTerminalShellExecution onError event s =
     (if (\<exists>c. exitCode event = Some c \<and> c \<noteq> 0) then onError s else s)"
  by (cases "exitCode event") (auto simp: onDidEndTerminalShellExecution_def)

lemma TerminalMonitor_count:
  "TerminalMonitor Suc events n =
     n + length (filter (\<lambda>e. \<exists>c. exitCode e = Some c \<and> c \<noteq> 0) events)"
  by (induction events arbitrary: n) (simp_all add: listener_cases)

text \<open>
  C9. The terminal monitor calls its alert callback exactly when the shell execution that
  ended has a determined exit code different from 0: once for such an event, not at all
  for exit code 0 and not at all for an undetermined (\<open>undefined\<close>) exit code; over a
  sequence of events the callback has run once per event with a determined non-zero code.
\<close>

theorem monitor_fires_iff_determined_nonzero:
  "onDidEndTerminalShellExecution Suc event (n::nat) =
     (if (\<exists>c. exitCode event = Some c \<and> c \<noteq> 0) then Suc n else n)
   \<and> onDidEndTerminalShellExecution Suc \<lparr>exitCode = Some 0\<rparr> n = n
   \<and> onDidEndTerminalShellExecution Suc \<lparr>exitCode = None\<rparr> n = n
   \<and> TerminalMonitor Suc events 0 =
       length (filter (\<lambda>e. \<exists>c. exitCode e = Some c \<and> c \<noteq> 0) events)"
  by (simp add: listener_cases TerminalMonitor_count)

subsection \<open>Dispatch and debounce\<close>

lemma handleError_last:
  "handleError this a = (this', r) \<Longrightarrow>
     (this' = this \<and> r = None) \<or>
     (lastPlayTime this' = Date_now a \<and> lastPlayTime this + 300 \<le> Date_now a)"
  by (auto simp: handleError_def DEBOUNCE_MS_def Let_def split: if_splits option.splits)

lemma handleError_play:
  "handleError this a = (this', Some r) \<Longrightarrow>
     lastPlayTime this' = Date_now a \<and> lastPlayTime this + 300 \<le> Date_now a"
  by (auto simp: handleError_def DEBOUNCE_MS_def Let_def split: if_splits option.splits)

lemma plays_after_last:
  "p \<in> set (handleErrors this as) \<Longrightarrow> lastPlayTime this + 300 \<le> fst p"
proof (induction as arbitrary: this)
  case Nil
  then show ?case by simp
next
  case (Cons a as)
  obtain this' r where h: "handleError this a = (this', r)"
    by (cases "handleError this a")
  from handleError_last [OF h] have mono: "lastPlayTime this \<le> lastPlayTime this'"
    by auto
  show ?case
  proof (cases r)
    case None
    with Cons.prems h have "p \<in> set (handleErrors this' as)" by simp
    from Cons.IH [OF this] mono show ?thesis by linarith
  next
    case (Some req)
    with Cons.prems h have "p = (Date_now a, req) \<or> p \<in> set (handleErrors this' as)"
      by auto
    then show ?thesis
    proof
      assume "p = (Date_now a, req)"
      with handleError_play [of this a this' req] h Some show ?thesis by simp
    next
      assume "p \<in> set (handleErrors this' as)"
      from Cons.IH [OF this] mono show ?thesis by linarith
    qed
  qed
qed

lemma plays_spaced:
  "sorted_wrt (\<lambda>p q. fst p + 300 \<le> fst q) (handleErrors this as)"
proof (induction as arbitrary: this)
  case Nil
  then show ?case by simp
next
  case (Cons a as)
  obtain this' r where h: "handleError this a = (this', r)"
    by (cases "handleError this a")
  show ?case
  proof (cases r)
    case None
    with h Cons.IH show ?thesis by simp
  next
    case (Some req)
    with handleError_play [of this a this' req] h
    have "lastPlayTime this' = Date_now a" by simp
    with plays_after_last [of _ this' as]
    have "\<forall>q \<in> set (handleErrors this' as). Date_now a + 300 \<le> fst q" by auto
    with h Some Cons.IH show ?thesis by simp
  qed
qed

text \<open>
  C3 as stated fails at the clock readings it names: \<open>lastPlayTime\<close> starts at 0, so on
  a fresh manager an alert at reading 0 is itself dropped. Alerts at 0 and 200 make no
  call of \<open>playSound\<close>, and alerts at 0 and 350 make one, at 350.
\<close>

theorem first_alert_below_300_dropped:
  "map fst (handleErrors new_SfxManager
      [\<lparr>Date_now = 0, isEnabled = True,
        resolveSelectedSound = Some ''/ext/media/sounds/faah.mp3'', config_volume = 80\<rparr>,
       \<lparr>Date_now = 200, isEnabled = True,
        resolveSelectedSound = Some ''/ext/media/sounds/faah.mp3'', config_volume = 80\<rparr>]) = []
   \<and> map fst (handleErrors new_SfxManager
      [\<lparr>Date_now = 0, isEnabled = True,
        resolveSelectedSound = Some ''/ext/media/sounds/faah.mp3'', config_volume = 80\<rparr>,
       \<lparr>Date_now = 350, isEnabled = True,
        resolveSelectedSound = Some ''/ext/media/sounds/faah.mp3'', config_volume = 80\<rparr>]) = [350]"
  by (simp add: handleError_def new_SfxManager_def DEBOUNCE_MS_def Let_def)

text \<open>
  C3, as the code has it. For every sequence of alerts and every starting state, any two
  calls of \<open>playSound\<close> made by \<open>handleError\<close> are at least 300 ms apart, the later one at
  least 300 ms after the earlier accepted alert. With the feature enabled and a
  resolvable sound, on a fresh manager whose first alert comes at a clock reading \<open>t0\<close>
  of at least 300 (\<open>Date.now()\<close> counts ms since 1970, and \<open>lastPlayTime\<close> starts at 0):
  alerts at \<open>t0\<close> and \<open>t0 + 200\<close> make exactly one call, at \<open>t0\<close>; alerts at \<open>t0\<close> and
  \<open>t0 + 350\<close> make exactly two.
\<close>

theorem debounce_one_play_per_interval:
  assumes "300 \<le> t0"
      and "fp \<noteq> []"
  shows "sorted_wrt (\<lambda>p q. fst p + 300 \<le> fst q) (handleErrors this as)
     \<and> map fst (handleErrors new_SfxManager
          [\<lparr>Date_now = t0, isEnabled = True, resolveSelectedSound = Some fp,
            config_volume = v\<rparr>,
           \<lparr>Date_now = t0 + 200, isEnabled = True, resolveSelectedSound = Some fp,
            config_volume = v\<rparr>])
         = [t0]
     \<and> map fst (handleErrors new_SfxManager
          [\<lparr>Date_now = t0, isEnabled = True, resolveSelectedSound = Some fp,
            config_volume = v\<rparr>,
           \<lparr>Date_now = t0 + 350, isEnabled = True, resolveSelectedSound = Some fp,
            config_volume = v\<rparr>])
         = [t0, t0 + 350]"
  using assms
  by (simp add: plays_spaced handleError_def new_SfxManager_def DEBOUNCE_MS_def Let_def)

theorem debounce_one_play_per_interval_witness:
  "length (handleErrors new_SfxManager
      [\<lparr>Date_now = 1700000000000, isEnabled = True,
        resolveSelectedSound = Some ''/ext/media/sounds/faah.mp3'', config_volume = 80\<rparr>,
       \<lparr>Date_now = 1700000000000 + 200, isEnabled = True,
        resolveSelectedSound = Some ''/ext/media/sounds/faah.mp3'', config_volume = 80\<rparr>]) = 1
   \<and> length (handleErrors new_SfxManager
      [\<lparr>Date_now = 1700000000000, isEnabled = True,
        resolveSelectedSound = Some ''/ext/media/sounds/faah.mp3'', config_volume = 80\<rparr>,
       \<lparr>Date_now = 1700000000000 + 350, isEnabled = True,
        resolveSelectedSound = Some ''/ext/media/sounds/faah.mp3'', config_volume = 80\<rparr>]) = 2"
proof -
  have t: "(300::int) \<le> 1700000000000" by simp
  have f: "''/ext/media/sounds/faah.mp3'' \<noteq> []" by simp
  from debounce_one_play_per_interval [OF t f, of new_SfxManager "[]" 80]
  have a: "map fst (handleErrors new_SfxManager
      [\<lparr>Date_now = 1700000000000, isEnabled = True,
        resolveSelectedSound = Some ''/ext/media/sounds/faah.mp3'', config_volume = 80\<rparr>,
       \<lparr>Date_now = 1700000000000 + 200, isEnabled = True,
        resolveSelectedSound = Some ''/ext/media/sounds/faah.mp3'', config_volume = 80\<rparr>])
      = [1700000000000]"
   and b: "map fst (handleErrors new_SfxManager
      [\<lparr>Date_now = 1700000000000, isEnabled = True,
        resolveSelectedSound = Some ''/ext/media/sounds/faah.mp3'', config_volume = 80\<rparr>,
       \<lparr>Date_now = 1700000000000 + 350, isEnabled = True,
        resolveSelectedSound = Some ''/ext/media/sounds/faah.mp3'', config_volume = 80\<rparr>])
      = [1700000000000, 1700000000000 + 350]"
    by blast+
  from arg_cong [OF a, of length] arg_cong [OF b, of length]
  show ?thesis by simp
qed

subsection \<open>Decimal rendering and file names\<close>

lemma digit_char_inj: "a < 10 \<Longrightarrow> b < 10 \<Longrightarrow> digit_char a = digit_char b \<Longrightarrow> a = b"
  unfolding digit_char_def
  by (subst (asm) nth_eq_iff_index_eq) simp_all

lemma digit_char_digit: "d < 10 \<Longrightarrow> digit_char d \<in> set ''0123456789''"
  unfolding digit_char_def by (rule nth_mem) simp

lemma String_nat_nonempty: "String_nat n \<noteq> []"
  by (subst String_nat.simps) simp

lemma String_nat_digits: "set (String_nat n) \<subseteq> set ''0123456789''"
proof (induction n rule: String_nat.induct)
  case (1 n)
  show ?case
  proof (cases "n < 10")
    case True
    with digit_char_digit [of n] show ?thesis
      by (subst String_nat.simps) simp
  next
    case False
    have "n mod 10 < 10" by simp
    from digit_char_digit [OF this] 1 [OF False] False show ?thesis
      by (subst String_nat.simps) simp
  qed
qed

lemma String_nat_inj: "String_nat m = String_nat n \<Longrightarrow> m = n"
proof (induction m arbitrary: n rule: String_nat.induct)
  case (1 m n)
  show ?case
  proof (cases "m < 10")
    case m: True
    show ?thesis
    proof (cases "n < 10")
      case True
      with m 1(2) show ?thesis
        by (simp add: String_nat.simps [of m] String_nat.simps [of n] digit_char_inj)
    next
      case False
      with m 1(2) String_nat_nonempty [of "n div 10"] show ?thesis
        by (simp add: String_nat.simps [of m] String_nat.simps [of n])
    qed
  next
    case m: False
    show ?thesis
    proof (cases "n < 10")
      case True
      with m 1(2) String_nat_nonempty [of "m div 10"] show ?thesis
        by (simp add: String_nat.simps [of m] String_nat.simps [of n])
    next
      case False
      with m 1(2) have eq: "String_nat (m div 10) = String_nat (n div 10)"
          and d: "digit_char (m mod 10) = digit_char (n mod 10)"
        by (simp_all add: String_nat.simps [of m] String_nat.simps [of n])
      from 1(1) [OF m eq] have "m div 10 = n div 10" .
      moreover from d have "m mod 10 = n mod 10"
        by (rule digit_char_inj [rotated 2]) simp_all
      ultimately show ?thesis
        by (metis div_mult_mod_eq)
    qed
  qed
qed

lemma String_nat_no_minus: "CHR ''-'' \<notin> set (String_nat n)"
proof
  assume "CHR ''-'' \<in> set (String_nat n)"
  with String_nat_digits [of n] have "CHR ''-'' \<in> set ''0123456789''" by (rule subsetD)
  then show False by simp
qed

lemma String_nat_no_dot: "CHR ''.'' \<notin> set (String_nat n)"
proof
  assume "CHR ''.'' \<in> set (String_nat n)"
  with String_nat_digits [of n] have "CHR ''.'' \<in> set ''0123456789''" by (rule subsetD)
  then show False by simp
qed

lemma String_int_no_dot: "CHR ''.'' \<notin> set (String_int i)"
  by (simp add: String_int_def String_nat_no_dot)

lemma String_int_inj: "String_int i = String_int j \<Longrightarrow> i = j"
proof -
  assume eq: "String_int i = String_int j"
  note no_minus = String_nat_no_minus
  show ?thesis
  proof (cases "i < 0")
    case i: True
    show ?thesis
    proof (cases "j < 0")
      case True
      with i eq have "String_nat (nat (- i)) = String_nat (nat (- j))"
        by (simp add: String_int_def)
      from String_nat_inj [OF this] i True show ?thesis by simp
    next
      case False
      with i eq have "CHR ''-'' # String_nat (nat (- i)) = String_nat (nat j)"
        by (simp add: String_int_def)
      then have "CHR ''-'' \<in> set (String_nat (nat j))" by (metis list.set_intros(1))
      with no_minus show ?thesis by simp
    qed
  next
    case i: False
    show ?thesis
    proof (cases "j < 0")
      case True
      with i eq have "String_nat (nat i) = CHR ''-'' # String_nat (nat (- j))"
        by (simp add: String_int_def)
      then have "CHR ''-'' \<in> set (String_nat (nat i))" by (metis list.set_intros(1))
      with no_minus show ?thesis by simp
    next
      case False
      with i eq have "String_nat (nat i) = String_nat (nat j)"
        by (simp add: String_int_def)
      from String_nat_inj [OF this] i False show ?thesis by simp
    qed
  qed
qed

lemma split_at_dot:
  assumes eq: "a @ x = b @ y"
      and a: "CHR ''.'' \<notin> set a" and b: "CHR ''.'' \<notin> set b"
      and x: "x \<noteq> [] \<and> hd x = CHR ''.''" and y: "y \<noteq> [] \<and> hd y = CHR ''.''"
  shows "a = b \<and> x = y"
proof -
  from eq obtain us where us: "a = b @ us \<and> us @ x = y \<or> a @ us = b \<and> x = us @ y"
    by (auto simp: append_eq_append_conv2)
  have "us = []"
  proof (rule ccontr)
    assume ne: "us \<noteq> []"
    then have h: "hd us \<in> set us" by simp
    from us show False
    proof
      assume c: "a = b @ us \<and> us @ x = y"
      with ne have "hd y = hd us" by auto
      with y h c a show False by auto
    next
      assume c: "a @ us = b \<and> x = us @ y"
      with ne have "hd x = hd us" by auto
      with x h c b show False by auto
    qed
  qed
  with us show ?thesis by auto
qed

lemma dest_filename_eq_iff:
  assumes "e1 = [] \<or> hd e1 = CHR ''.''" and "e2 = [] \<or> hd e2 = CHR ''.''"
  shows "dest_filename n1 e1 = dest_filename n2 e2 \<longleftrightarrow>
         n1 = n2 \<and> (if e1 = [] then ''.mp3'' else e1) = (if e2 = [] then ''.mp3'' else e2)"
proof
  let ?x = "if e1 = [] then ''.mp3'' else e1" and ?y = "if e2 = [] then ''.mp3'' else e2"
  assume "dest_filename n1 e1 = dest_filename n2 e2"
  then have eq: "String_int n1 @ ?x = String_int n2 @ ?y"
    by (simp add: dest_filename_def)
  note nodot = String_int_no_dot
  have x: "?x \<noteq> [] \<and> hd ?x = CHR ''.''" using assms(1) by auto
  have y: "?y \<noteq> [] \<and> hd ?y = CHR ''.''" using assms(2) by auto
  from split_at_dot [OF eq nodot nodot x y] String_int_inj
  show "n1 = n2 \<and> ?x = ?y" by blast
next
  assume "n1 = n2 \<and> (if e1 = [] then ''.mp3'' else e1) = (if e2 = [] then ''.mp3'' else e2)"
  then show "dest_filename n1 e1 = dest_filename n2 e2"
    by (simp add: dest_filename_def)
qed

subsection \<open>Fetcher\<close>

lemma stream_body_total:
  "received \<le> MAX_FILE_BYTES \<Longrightarrow>
   stream_body received written chunks =
     (if received + sum_list (map length chunks) \<le> MAX_FILE_BYTES
      then Some (written @ concat chunks) else None)"
proof (induction chunks arbitrary: received written)
  case Nil
  then show ?case by simp
next
  case (Cons chunk chunks)
  show ?case
  proof (cases "received + length chunk > MAX_FILE_BYTES")
    case True
    then show ?thesis by (simp add: Let_def)
  next
    case False
    then have "received + length chunk \<le> MAX_FILE_BYTES" by simp
    from Cons.IH [OF this] False show ?thesis by (simp add: Let_def add.assoc)
  qed
qed

lemma download_invalid_url:
  "extname_of_url w url = None \<Longrightarrow> downloadFromUrl w d url st = Some (Inl InvalidURL, st)"
  by (subst downloadFromUrl.simps) simp

lemma download_request_error:
  "extname_of_url w url = Some e \<Longrightarrow> http_get w (calls st) url = RequestError m \<Longrightarrow>
   downloadFromUrl w d url st =
     Some (Inl (RequestFailed m), after_unlink d (clock w (calls st)) e st)"
  by (subst downloadFromUrl.simps) (simp add: after_unlink_def Let_def)

lemma download_redirect:
  "extname_of_url w url = Some e \<Longrightarrow> http_get w (calls st) url = Response sc (Some l) chunks \<Longrightarrow>
   sc = 301 \<or> sc = 302 \<Longrightarrow> l \<noteq> [] \<Longrightarrow>
   downloadFromUrl w d url st = downloadFromUrl w d l (after_unlink d (clock w (calls st)) e st)"
  by (subst downloadFromUrl.simps) (auto simp add: after_unlink_def Let_def)

lemma download_redirect_no_location:
  "extname_of_url w url = Some e \<Longrightarrow> http_get w (calls st) url = Response sc loc chunks \<Longrightarrow>
   sc = 301 \<or> sc = 302 \<Longrightarrow> loc = None \<or> loc = Some [] \<Longrightarrow>
   downloadFromUrl w d url st =
     Some (Inl (Error ''Redirect with no location header''),
           after_unlink d (clock w (calls st)) e st)"
  by (subst downloadFromUrl.simps) (auto simp add: after_unlink_def Let_def)

lemma download_status_error:
  "extname_of_url w url = Some e \<Longrightarrow> http_get w (calls st) url = Response sc loc chunks \<Longrightarrow>
   sc \<noteq> 301 \<Longrightarrow> sc \<noteq> 302 \<Longrightarrow> sc \<noteq> 200 \<Longrightarrow>
   downloadFromUrl w d url st =
     Some (Inl (Error (''Download failed with status '' @ String_int sc)),
           after_unlink d (clock w (calls st)) e st)"
  by (subst downloadFromUrl.simps) (simp add: after_unlink_def Let_def)

lemma download_too_large:
  "extname_of_url w url = Some e \<Longrightarrow> http_get w (calls st) url = Response 200 loc chunks \<Longrightarrow>
   MAX_FILE_BYTES < sum_list (map length chunks) \<Longrightarrow>
   downloadFromUrl w d url st =
     Some (Inl (Error ''File too large (max 5MB)''), after_unlink d (clock w (calls st)) e st)"
  by (subst downloadFromUrl.simps) (simp add: after_unlink_def Let_def stream_body_total)

lemma download_ok:
  "extname_of_url w url = Some e \<Longrightarrow> http_get w (calls st) url = Response 200 loc chunks \<Longrightarrow>
   sum_list (map length chunks) \<le> MAX_FILE_BYTES \<Longrightarrow>
   downloadFromUrl w d url st =
     Some (Inr (destPath d (clock w (calls st)) e),
           \<lparr>files = (files st)(destPath d (clock w (calls st)) e \<mapsto> concat chunks),
            calls = Suc (calls st)\<rparr>)"
  by (subst downloadFromUrl.simps) (simp add: Let_def stream_body_total)

lemmas download_induct = downloadFromUrl.raw_induct [rotated -1, consumes 1, case_names step]

lemma download_get_throws:
  "extname_of_url w url = Some e \<Longrightarrow> http_get w (calls st) url = GetThrows m \<Longrightarrow>
   downloadFromUrl w d url st =
     Some (Inl (Thrown m),
           \<lparr>files = (files st)(destPath d (clock w (calls st)) e \<mapsto> []),
            calls = Suc (calls st)\<rparr>)"
  by (subst downloadFromUrl.simps) (simp add: Let_def)

lemma rejected_no_new_file_aux:
  "downloadFromUrl w d url st = Some y \<Longrightarrow>
   \<forall>err st'. y = (Inl err, st') \<and> (\<forall>m. err \<noteq> Thrown m) \<longrightarrow> files st' \<subseteq>\<^sub>m files st"
proof (induction w d url st y rule: download_induct)
  case (step f w d url st y)
  show ?case
  proof (cases "extname_of_url w url")
    case None
    with step(2) show ?thesis by auto
  next
    case (Some e)
    let ?u = "after_unlink d (clock w (calls st)) e st"
    have le: "files ?u \<subseteq>\<^sub>m files st"
      by (auto simp: after_unlink_def map_le_def)
    show ?thesis
    proof (cases "http_get w (calls st) url")
      case (GetThrows m)
      with step(2) Some show ?thesis by (auto simp: Let_def)
    next
      case (RequestError m)
      with step(2) Some le show ?thesis by (auto simp: Let_def after_unlink_def)
    next
      case (Response sc loc chunks)
      show ?thesis
      proof (cases "(sc = 301 \<or> sc = 302) \<and> loc \<noteq> None \<and> loc \<noteq> Some []")
        case True
        then obtain l where l: "loc = Some l" "l \<noteq> []" by auto
        with step(2) Some Response True have "f w d l ?u = Some y"
          by (auto simp: Let_def after_unlink_def)
        from step(1) [OF this] le show ?thesis
          by (auto intro: map_le_trans)
      next
        case False
        with step(2) Some Response le show ?thesis
          by (auto simp: Let_def after_unlink_def split: option.splits if_splits)
      qed
    qed
  qed
qed

lemma rejected_no_new_file:
  "downloadFromUrl w d url st = Some (Inl err, st') \<Longrightarrow> \<forall>m. err \<noteq> Thrown m \<Longrightarrow>
   files st' \<subseteq>\<^sub>m files st"
  using rejected_no_new_file_aux by blast

lemma rejected_dest_absent:
  assumes r: "downloadFromUrl w d url st = Some (Inl err, st')"
      and e: "extname_of_url w url = Some e"
      and t: "\<forall>m. err \<noteq> Thrown m"
  shows "files st' (destPath d (clock w (calls st)) e) = None"
proof -
  let ?p = "destPath d (clock w (calls st)) e"
  let ?u = "after_unlink d (clock w (calls st)) e st"
  have u: "files ?u ?p = None" by (simp add: after_unlink_def)
  have "st' = ?u \<or> (\<exists>l. downloadFromUrl w d l ?u = Some (Inl err, st'))"
    using r e t
    by (subst (asm) downloadFromUrl.simps)
       (auto simp: Let_def after_unlink_def split: response.splits option.splits if_splits)
  then show ?thesis
  proof
    assume "st' = ?u" with u show ?thesis by simp
  next
    assume "\<exists>l. downloadFromUrl w d l ?u = Some (Inl err, st')"
    then obtain l where "downloadFromUrl w d l ?u = Some (Inl err, st')" ..
    from rejected_no_new_file [OF this t] u show ?thesis
      by (auto simp: map_le_def dom_def)
  qed
qed

lemma never_settles:
  assumes step: "\<And>n u. u \<in> U \<Longrightarrow>
            \<exists>e sc l chunks. extname_of_url w u = Some e
              \<and> http_get w n u = Response sc (Some l) chunks
              \<and> (sc = 301 \<or> sc = 302) \<and> l \<noteq> [] \<and> l \<in> U"
      and start: "url \<in> U"
  shows "downloadFromUrl w d url st = None"
proof (rule ccontr)
  assume "downloadFromUrl w d url st \<noteq> None"
  then obtain y where y: "downloadFromUrl w d url st = Some y" by auto
  have "downloadFromUrl w' d url st = Some y \<Longrightarrow> w' = w \<longrightarrow> url \<notin> U" for w'
  proof (induction w' d url st y rule: download_induct)
    case (step f w' d url st y)
    show ?case
    proof (intro impI notI)
      assume w: "w' = w" and u: "url \<in> U"
      from assms(1) [OF u, of "calls st"] obtain e sc l chunks where
        h: "extname_of_url w url = Some e" "http_get w (calls st) url = Response sc (Some l) chunks"
           "sc = 301 \<or> sc = 302" "l \<noteq> []" "l \<in> U"
        by blast
      with step(2) w have "f w d l (after_unlink d (clock w (calls st)) e st) = Some y"
        by (auto simp: Let_def after_unlink_def)
      from step(1) [OF this [folded w]] w h show False by simp
    qed
  qed
  from this [OF y] start show False by simp
qed

lemma redirected_follow:
  "redirected w d n url st = Some (url', st') \<Longrightarrow>
   downloadFromUrl w d url st = downloadFromUrl w d url' st'"
proof (induction n arbitrary: url st)
  case 0
  then show ?case by simp
next
  case (Suc n)
  from Suc.prems obtain e sc l chunks where
    h: "extname_of_url w url = Some e" "http_get w (calls st) url = Response sc (Some l) chunks"
       "sc = 301 \<or> sc = 302" "l \<noteq> []"
       "redirected w d n l (after_unlink d (clock w (calls st)) e st) = Some (url', st')"
    by (auto split: option.splits response.splits if_splits)
  from download_redirect [OF h(1-4)] Suc.IH [OF h(5)] show ?case by simp
qed

lemma example_dest:
  "destPath ''/store/sounds'' 1700000000000 ''.wav'' = ''/store/sounds/custom-1700000000000.wav''"
  by (simp add: destPath_def path_join_def dest_filename_def String_int_def String_nat.simps
        digit_char_def)

text \<open>
  With the file operations completing in program order, the exits that
  \<open>downloadFromUrl\<close> handles leave no file behind. For a URL that parses:
  an \<open>error\<close> event on the request rejects with that error; a 301 or 302 without a
  (non-empty) \<open>location\<close> rejects with \<open>Redirect with no location header\<close>; any other
  status but 200 rejects with \<open>Download failed with status\<close> and the status; a body whose
  size passes 5 MiB rejects with \<open>File too large (max 5MB)\<close>; each time the disk is the
  one before the call without the destination file. And whenever the promise is rejected
  with anything but an exception of \<open>client.get\<close>, also after any number of redirects,
  every file on disk was there before the call with the same content, and no file is at
  the destination path.
\<close>

lemma handled_exits_leave_no_file:
  "(\<forall>m. extname_of_url w url = Some e \<and> http_get w (calls st) url = RequestError m \<longrightarrow>
      downloadFromUrl w d url st =
        Some (Inl (RequestFailed m), after_unlink d (clock w (calls st)) e st))
   \<and> (\<forall>sc loc chunks.
        extname_of_url w url = Some e \<and> http_get w (calls st) url = Response sc loc chunks
        \<and> (sc = 301 \<or> sc = 302) \<and> (loc = None \<or> loc = Some []) \<longrightarrow>
        downloadFromUrl w d url st =
          Some (Inl (Error ''Redirect with no location header''),
                after_unlink d (clock w (calls st)) e st))
   \<and> (\<forall>sc loc chunks.
        extname_of_url w url = Some e \<and> http_get w (calls st) url = Response sc loc chunks
        \<and> sc \<noteq> 301 \<and> sc \<noteq> 302 \<and> sc \<noteq> 200 \<longrightarrow>
        downloadFromUrl w d url st =
          Some (Inl (Error (''Download failed with status '' @ String_int sc)),
                after_unlink d (clock w (calls st)) e st))
   \<and> (\<forall>loc chunks.
        extname_of_url w url = Some e \<and> http_get w (calls st) url = Response 200 loc chunks
        \<and> MAX_FILE_BYTES < sum_list (map length chunks) \<longrightarrow>
        downloadFromUrl w d url st =
          Some (Inl (Error ''File too large (max 5MB)''),
                after_unlink d (clock w (calls st)) e st))
   \<and> files (after_unlink d (clock w (calls st)) e st) (destPath d (clock w (calls st)) e) = None
   \<and> files (after_unlink d (clock w (calls st)) e st) \<subseteq>\<^sub>m files st
   \<and> (\<forall>err st'. downloadFromUrl w d url st = Some (Inl err, st') \<and> (\<forall>m. err \<noteq> Thrown m) \<longrightarrow>
        files st' \<subseteq>\<^sub>m files st
        \<and> (extname_of_url w url = Some e \<longrightarrow>
             files st' (destPath d (clock w (calls st)) e) = None))"
proof (intro conjI allI impI)
  show "files (after_unlink d (clock w (calls st)) e st) \<subseteq>\<^sub>m files st"
    by (auto simp: after_unlink_def map_le_def)
qed (auto simp: download_request_error download_redirect_no_location download_status_error
       download_too_large rejected_no_new_file rejected_dest_absent after_unlink_def)

lemma handled_exits_examples:
  "downloadFromUrl file_server ''/store/sounds'' ''https://sounds.example/huge.mp3'' empty_disk =
     Some (Inl (Error ''File too large (max 5MB)''), \<lparr>files = Map.empty, calls = 1\<rparr>)
   \<and> downloadFromUrl file_server ''/store/sounds'' ''https://sounds.example/clip'' empty_disk =
     Some (Inl (Error ''Download failed with status 404''), \<lparr>files = Map.empty, calls = 1\<rparr>)"
  using handled_exits_leave_no_file [of file_server "''https://sounds.example/huge.mp3''"
      "''.mp3''" empty_disk "''/store/sounds''"]
    handled_exits_leave_no_file [of file_server "''https://sounds.example/clip''"
      "[]" empty_disk "''/store/sounds''"]
  by (simp add: file_server_def example_extname_def example_clock_def empty_disk_def
        MAX_FILE_BYTES_def after_unlink_def String_int_def String_nat.simps digit_char_def)

text \<open>
  C1. The claim is that every exit of \<open>downloadFromUrl\<close> other than success rejects and
  leaves no file at the destination path. One exit does leave a file: when
  \<open>client.get\<close> throws, as \<open>http.get\<close> does on the URL \<open>ftp://sounds.example/boom.wav\<close>,
  the promise is rejected with that exception, and the file that \<open>createWriteStream\<close>
  made just before stays at the destination path, empty; no \<open>unlink\<close> is run.
\<close>

theorem get_throws_leaves_empty_file:
  "downloadFromUrl file_server ''/store/sounds'' ''ftp://sounds.example/boom.wav'' empty_disk =
     Some (Inl (Thrown ''Protocol ftp: not supported. Expected http:''),
           \<lparr>files = [''/store/sounds/custom-1700000000000.wav'' \<mapsto> []], calls = 1\<rparr>)"
  using download_get_throws [of file_server "''ftp://sounds.example/boom.wav''" "''.wav''"
      empty_disk "''Protocol ftp: not supported. Expected http:''" "''/store/sounds''"]
  by (simp add: file_server_def example_extname_def example_clock_def empty_disk_def
        example_dest)

text \<open>
  C2, as the code has it. \<open>downloadFromUrl\<close> keeps no count of redirects and has no
  maximum: for every \<open>n\<close>, when the next \<open>n\<close> responses are redirects that carry a
  location, it follows all \<open>n\<close> and settles as the download of the last location does;
  and against a server that answers every request with such a redirect it never settles.
\<close>

theorem redirects_followed_without_bound:
  "(redirected w d n url st = Some (url', st') \<longrightarrow>
      downloadFromUrl w d url st = downloadFromUrl w d url' st')
   \<and> ((\<forall>k. \<forall>u \<in> U. \<exists>e sc l chunks. extname_of_url w u = Some e
           \<and> http_get w k u = Response sc (Some l) chunks
           \<and> (sc = 301 \<or> sc = 302) \<and> l \<noteq> [] \<and> l \<in> U) \<and> url \<in> U \<longrightarrow>
        downloadFromUrl w d url st = None)"
proof (intro conjI impI)
  assume "redirected w d n url st = Some (url', st')"
  then show "downloadFromUrl w d url st = downloadFromUrl w d url' st'"
    by (rule redirected_follow)
next
  assume a: "(\<forall>k. \<forall>u \<in> U. \<exists>e sc l chunks. extname_of_url w u = Some e
           \<and> http_get w k u = Response sc (Some l) chunks
           \<and> (sc = 301 \<or> sc = 302) \<and> l \<noteq> [] \<and> l \<in> U) \<and> url \<in> U"
  show "downloadFromUrl w d url st = None"
  proof (rule never_settles [where U = U])
    fix n u assume "u \<in> U"
    with a show "\<exists>e sc l chunks. extname_of_url w u = Some e
              \<and> http_get w n u = Response sc (Some l) chunks
              \<and> (sc = 301 \<or> sc = 302) \<and> l \<noteq> [] \<and> l \<in> U"
      by blast
  next
    from a show "url \<in> U" by blast
  qed
qed

theorem redirects_followed_without_bound_witness:
  "downloadFromUrl six_redirects ''/store/sounds'' ''http://loop.example/a.mp3'' empty_disk =
     Some (Inr ''/store/sounds/custom-1700000000240.mp3'',
           \<lparr>files = [''/store/sounds/custom-1700000000240.mp3'' \<mapsto> [1, 2, 3]], calls = 7\<rparr>)
   \<and> downloadFromUrl loop_server ''/tmp'' ''http://loop.example/a.mp3''
        \<lparr>files = Map.empty, calls = 3\<rparr> = None"
proof -
  have r: "redirected six_redirects ''/store/sounds'' 6 ''http://loop.example/a.mp3'' empty_disk =
             Some (''http://loop.example/a.mp3'', \<lparr>files = Map.empty, calls = 6\<rparr>)"
    by (simp add: eval_nat_numeral six_redirects_def example_extname_def empty_disk_def
          after_unlink_def)
  have p: "destPath ''/store/sounds'' 1700000000240 ''.mp3'' =
             ''/store/sounds/custom-1700000000240.mp3''"
    by (simp add: destPath_def path_join_def dest_filename_def String_int_def String_nat.simps
          digit_char_def)
  have c: "clock six_redirects 6 = 1700000000240"
    by (simp add: six_redirects_def example_clock_def)
  have "downloadFromUrl six_redirects ''/store/sounds'' ''http://loop.example/a.mp3''
          \<lparr>files = Map.empty, calls = 6\<rparr> =
        Some (Inr (destPath ''/store/sounds'' (clock six_redirects 6) ''.mp3''),
           \<lparr>files = [destPath ''/store/sounds'' (clock six_redirects 6) ''.mp3''
                      \<mapsto> concat [[1, 2, 3]]],
            calls = Suc 6\<rparr>)"
    using download_ok [of six_redirects "''http://loop.example/a.mp3''" "''.mp3''"
        "\<lparr>files = Map.empty, calls = 6\<rparr>" None "[[1, 2, 3]]" "''/store/sounds''"]
    by (simp add: six_redirects_def example_extname_def MAX_FILE_BYTES_def)
  with c p have last:
    "downloadFromUrl six_redirects ''/store/sounds'' ''http://loop.example/a.mp3''
          \<lparr>files = Map.empty, calls = 6\<rparr> =
     Some (Inr ''/store/sounds/custom-1700000000240.mp3'',
           \<lparr>files = [''/store/sounds/custom-1700000000240.mp3'' \<mapsto> [1, 2, 3]], calls = 7\<rparr>)"
    by simp
  have loop: "(\<forall>k. \<forall>u \<in> {''http://loop.example/a.mp3''}. \<exists>e sc l chunks.
           extname_of_url loop_server u = Some e
           \<and> http_get loop_server k u = Response sc (Some l) chunks
           \<and> (sc = 301 \<or> sc = 302) \<and> l \<noteq> [] \<and> l \<in> {''http://loop.example/a.mp3''})
         \<and> ''http://loop.example/a.mp3'' \<in> {''http://loop.example/a.mp3''}"
    by (simp add: loop_server_def example_extname_def)
  from redirects_followed_without_bound [of six_redirects "''/store/sounds''" 6
        "''http://loop.example/a.mp3''" empty_disk "''http://loop.example/a.mp3''"
        "\<lparr>files = Map.empty, calls = 6\<rparr>"] r last
  have one: "downloadFromUrl six_redirects ''/store/sounds'' ''http://loop.example/a.mp3''
      empty_disk =
     Some (Inr ''/store/sounds/custom-1700000000240.mp3'',
           \<lparr>files = [''/store/sounds/custom-1700000000240.mp3'' \<mapsto> [1, 2, 3]], calls = 7\<rparr>)"
    by simp
  from redirects_followed_without_bound [of loop_server "''/tmp''" 0
        "''http://loop.example/a.mp3''" "\<lparr>files = Map.empty, calls = 3\<rparr>"
        "''http://loop.example/a.mp3''" "\<lparr>files = Map.empty, calls = 3\<rparr>"
        "{''http://loop.example/a.mp3''}"] loop
  have two: "downloadFromUrl loop_server ''/tmp'' ''http://loop.example/a.mp3''
        \<lparr>files = Map.empty, calls = 3\<rparr> = None"
    by blast
  from one two show ?thesis by simp
qed

text \<open>
  C2 as stated fails: against a server that redirects every request to the same URL the
  promise never settles, so no maximum number of redirects ends the procedure.
\<close>

theorem redirect_forever_never_settles:
  "downloadFromUrl loop_server ''/store/sounds'' ''http://loop.example/a.mp3'' empty_disk = None"
  by (rule never_settles [where U = "{''http://loop.example/a.mp3''}"])
     (simp_all add: loop_server_def example_extname_def)

text \<open>
  C6. For a URL that parses and whose request is answered with status 200 and a body of
  at most \<open>5 * 1024 * 1024\<close> bytes, in any chunks, \<open>downloadFromUrl\<close> resolves with the
  destination path, and the file at that path holds the chunks of the body in order,
  byte for byte.
\<close>

theorem download_200_within_cap:
  assumes "extname_of_url w url = Some e"
      and "http_get w (calls st) url = Response 200 loc chunks"
      and "sum_list (map length chunks) \<le> MAX_FILE_BYTES"
  shows "downloadFromUrl w d url st =
           Some (Inr (destPath d (clock w (calls st)) e),
                 \<lparr>files = (files st)(destPath d (clock w (calls st)) e \<mapsto> concat chunks),
                  calls = Suc (calls st)\<rparr>)
         \<and> length (concat chunks) = sum_list (map length chunks)"
  using download_ok [OF assms, of d] by (simp add: length_concat)

theorem download_200_within_cap_witness:
  "downloadFromUrl file_server ''/store/sounds'' ''https://sounds.example/boom.wav'' empty_disk =
     Some (Inr ''/store/sounds/custom-1700000000000.wav'',
           \<lparr>files = [''/store/sounds/custom-1700000000000.wav'' \<mapsto> [82, 73, 70, 70, 1, 2]],
            calls = 1\<rparr>)"
proof -
  have e: "extname_of_url file_server ''https://sounds.example/boom.wav'' = Some ''.wav''"
    by (simp add: file_server_def example_extname_def)
  have r: "http_get file_server (calls empty_disk) ''https://sounds.example/boom.wav'' =
             Response 200 None [[82, 73, 70, 70], [1, 2]]"
    by (simp add: file_server_def)
  have c: "sum_list (map length [[82, 73, 70, 70], [1, 2 :: 8 word]]) \<le> MAX_FILE_BYTES"
    by (simp add: MAX_FILE_BYTES_def)
  from download_200_within_cap [OF e r c, of "''/store/sounds''"] show ?thesis
    by (simp add: file_server_def example_clock_def empty_disk_def example_dest)
qed

text \<open>
  C8 as stated fails: two invocations that read the same millisecond from \<open>Date.now()\<close>,
  one for a URL ending in \<open>.mp3\<close> and one for a URL without extension, derive the same
  file name and the same destination path.
\<close>

theorem same_millisecond_same_filename:
  "dest_filename 1700000000000 ''.mp3'' = ''custom-1700000000000.mp3''
   \<and> dest_filename 1700000000000 [] = ''custom-1700000000000.mp3''
   \<and> destPath ''/store/sounds'' 1700000000000 ''.mp3'' = destPath ''/store/sounds'' 1700000000000 []"
  by (simp add: destPath_def dest_filename_def String_int_def String_nat.simps digit_char_def)

text \<open>
  C8, as the code has it. With extensions as \<open>path.extname\<close> returns them (empty, or
  starting with a dot), two invocations derive the same file name exactly when they read
  the same millisecond from \<open>Date.now()\<close> and have the same extension after the default
  \<open>.mp3\<close> is put in; in the same directory, the destination paths are equal exactly when
  the file names are.
\<close>

theorem filenames_distinct_unless_same_ms_and_ext:
  assumes "e1 = [] \<or> hd e1 = CHR ''.''" and "e2 = [] \<or> hd e2 = CHR ''.''"
  shows "(dest_filename n1 e1 = dest_filename n2 e2 \<longleftrightarrow>
           n1 = n2 \<and> (if e1 = [] then ''.mp3'' else e1) = (if e2 = [] then ''.mp3'' else e2))
       \<and> (destPath d n1 e1 = destPath d n2 e2 \<longleftrightarrow> dest_filename n1 e1 = dest_filename n2 e2)"
  using dest_filename_eq_iff [OF assms] by (simp add: destPath_def path_join_def)

theorem filenames_distinct_unless_same_ms_and_ext_witness:
  "dest_filename 1700000000000 ''.mp3'' \<noteq> dest_filename 1700000000001 ''.mp3''
   \<and> dest_filename 1700000000000 ''.mp3'' \<noteq> dest_filename 1700000000000 ''.wav''
   \<and> destPath ''/store/sounds'' 1700000000000 [] \<noteq> destPath ''/store/sounds'' 1700000000001 []"
  using filenames_distinct_unless_same_ms_and_ext [of "''.mp3''" "''.mp3''" 1700000000000 1700000000001 "''/store/sounds''"]
    filenames_distinct_unless_same_ms_and_ext [of "''.mp3''" "''.wav''" 1700000000000 1700000000000 "''/store/sounds''"]
    filenames_distinct_unless_same_ms_and_ext [of "[]" "[]" 1700000000000 1700000000001 "''/store/sounds''"]
  by simp

subsection \<open>Playback engine\<close>

lemma tryNext_three:
  "tryNext run [p0, p1, p2] 0 =
     (if \<not> callback_err (run p0) then [p0]
      else if \<not> callback_err (run p1) then [p0, p1]
      else [p0, p1, p2])"
proof -
  let ?ps = "[p0, p1, p2]"
  have t3: "tryNext run ?ps (Suc (Suc (Suc 0))) = []"
    by (subst tryNext.simps) simp
  have t2: "tryNext run ?ps (Suc (Suc 0)) = [p2]"
    by (subst tryNext.simps) (simp add: t3)
  have t1: "tryNext run ?ps (Suc 0) = p1 # (if callback_err (run p1) then [p2] else [])"
    by (subst tryNext.simps) (simp add: t2)
  show ?thesis
    by (subst tryNext.simps) (simp add: t1)
qed

text \<open>
  C4. On Linux \<open>playSound\<close> runs the chain of \<open>tryLinuxPlayers\<close> over exactly three
  candidates, \<open>paplay\<close>, \<open>aplay\<close>, \<open>mpv\<close> in this order. Candidate 0 is always started;
  the next candidate is started exactly when the current one reported an error to its
  callback (it could not be started, exited with a non-zero code or was terminated by a
  signal); the chain stops at the first candidate that exits with code 0, and after the
  third candidate nothing more is started, whatever its result.
\<close>

theorem linux_fallback_chain:
  "playSound String_number run ''linux'' \<lparr>filePath = fp, volume = vol\<rparr> =
     (let ps = players String_number fp vol in
      if run (ps ! 0) = Exit 0 then [ps ! 0]
      else if run (ps ! 1) = Exit 0 then [ps ! 0, ps ! 1]
      else [ps ! 0, ps ! 1, ps ! 2])
   \<and> length (players String_number fp vol) = 3
   \<and> map cmd (players String_number fp vol) = [''paplay'', ''aplay'', ''mpv'']"
  unfolding playSound_def tryLinuxPlayers_def players_def Let_def
  by (simp add: tryNext_three callback_err_def)

lemmas timer_defs = lifetime_def next_event_def exits_at_def dispatch_def timer_callback_def
  exit_listener_def kill_def killAfterTimeout_def execFile_def MAX_PLAYBACK_MS_def

lemma wrapped_missing:
  "progs c = Missing \<Longrightarrow>
   lifetime progs (killAfterTimeout now (execFile progs now c)) =
     \<lparr>call = c, started_at = now, running = False, killed = False, timer = None,
      kill_calls = [now + 20000]\<rparr>"
  by (simp add: timer_defs)

lemma wrapped_hangs:
  "progs c = Runs None code \<Longrightarrow>
   lifetime progs (killAfterTimeout now (execFile progs now c)) =
     \<lparr>call = c, started_at = now, running = False, killed = True, timer = None,
      kill_calls = [now + 20000]\<rparr>"
  by (simp add: timer_defs)

lemma wrapped_overrun:
  "progs c = Runs (Some d) code \<Longrightarrow> 20000 \<le> d \<Longrightarrow>
   lifetime progs (killAfterTimeout now (execFile progs now c)) =
     \<lparr>call = c, started_at = now, running = False, killed = True, timer = None,
      kill_calls = [now + 20000]\<rparr>"
  by (simp add: timer_defs)

lemma wrapped_exits:
  "progs c = Runs (Some d) code \<Longrightarrow> d < 20000 \<Longrightarrow>
   lifetime progs (killAfterTimeout now (execFile progs now c)) =
     \<lparr>call = c, started_at = now, running = False, killed = False, timer = None,
      kill_calls = []\<rparr>"
  by (simp add: timer_defs)


lemma wrapped_cases:
  assumes "proc = lifetime progs (killAfterTimeout now (execFile progs now c))"
  shows "call proc = c \<and> started_at proc = now
     \<and> (\<forall>code. progs c = Runs None code \<longrightarrow>
           kill_calls proc = [now + 20000] \<and> killed proc)
     \<and> (\<forall>d code. progs c = Runs (Some d) code \<and> 20000 < d \<longrightarrow>
           kill_calls proc = [now + 20000] \<and> killed proc)
     \<and> (\<forall>d code. progs c = Runs (Some d) code \<and> d < 20000 \<longrightarrow>
           kill_calls proc = [] \<and> \<not> killed proc \<and> timer proc = None)
     \<and> (\<forall>t \<in> set (kill_calls proc). now + 20000 \<le> t)"
proof (cases "progs c")
  case Missing
  with assms wrapped_missing [of progs c now] show ?thesis by simp
next
  case (Runs natural_exit code)
  show ?thesis
  proof (cases natural_exit)
    case None
    with Runs assms wrapped_hangs [of progs c code now] show ?thesis by simp
  next
    case (Some d)
    show ?thesis
    proof (cases "d < 20000")
      case True
      with Runs Some assms wrapped_exits [of progs c d code now] show ?thesis by simp
    next
      case False
      with Runs Some assms wrapped_overrun [of progs c d code now] show ?thesis by simp
    qed
  qed
qed

lemma callback_wrapped:
  "\<exists>t. callback progs (lifetime progs (killAfterTimeout now (execFile progs now c))) =
        Some (result_within_cap (progs c), t)"
proof (cases "progs c")
  case Missing
  with wrapped_missing [of progs c now] show ?thesis
    by (simp add: callback_def result_within_cap_def)
next
  case (Runs natural_exit code)
  show ?thesis
  proof (cases natural_exit)
    case None
    with Runs wrapped_hangs [of progs c code now] show ?thesis
      by (simp add: callback_def result_within_cap_def)
  next
    case (Some d)
    show ?thesis
    proof (cases "d < 20000")
      case True
      with Runs Some wrapped_exits [of progs c d code now] show ?thesis
        by (simp add: callback_def result_within_cap_def MAX_PLAYBACK_MS_def)
    next
      case False
      with Runs Some wrapped_overrun [of progs c d code now] show ?thesis
        by (simp add: callback_def result_within_cap_def MAX_PLAYBACK_MS_def)
    qed
  qed
qed

lemma tryNext_at_wrapped:
  "proc \<in> set (tryNext_at progs ps index now) \<Longrightarrow>
   \<exists>t c. proc = lifetime progs (killAfterTimeout t (execFile progs t c))"
proof (induction "length ps - index" arbitrary: index now)
  case 0
  then show ?case
    by (simp add: tryNext_at.simps [of progs ps index now])
next
  case (Suc n)
  let ?p = "lifetime progs (killAfterTimeout now (execFile progs now (ps ! index)))"
  from Suc.hyps(2) have lt: "index < length ps" by simp
  from Suc.prems lt have
    "proc = ?p \<or> (\<exists>t. proc \<in> set (tryNext_at progs ps (index + 1) t))"
    by (subst (asm) tryNext_at.simps) (auto simp: Let_def split: option.splits if_splits)
  then show ?case
  proof
    assume "proc = ?p" then show ?thesis by blast
  next
    assume "\<exists>t. proc \<in> set (tryNext_at progs ps (index + 1) t)"
    then obtain t where h: "proc \<in> set (tryNext_at progs ps (index + 1) t)" ..
    from Suc.hyps(2) have "n = length ps - (index + 1)" by simp
    from Suc.hyps(1) [OF this h] show ?thesis .
  qed
qed

lemma tryNext_at_calls:
  "map call (tryNext_at progs ps index now) =
     tryNext (\<lambda>c. result_within_cap (progs c)) ps index"
proof (induction "length ps - index" arbitrary: index now)
  case 0
  then show ?case
    by (simp add: tryNext_at.simps [of progs ps index now]
          tryNext.simps [of _ ps index])
next
  case (Suc n)
  let ?p = "lifetime progs (killAfterTimeout now (execFile progs now (ps ! index)))"
  from Suc.hyps(2) have lt: "\<not> length ps \<le> index" by simp
  from callback_wrapped [of progs now "ps ! index"] obtain t where
    cb: "callback progs ?p = Some (result_within_cap (progs (ps ! index)), t)" by blast
  have c: "call ?p = ps ! index"
    using wrapped_cases [OF refl, of progs now "ps ! index"] by simp
  from Suc.hyps(2) have "n = length ps - (index + 1)" by simp
  from Suc.hyps(1) [OF this, of t]
  have ih: "map call (tryNext_at progs ps (index + 1) t) =
              tryNext (\<lambda>c. result_within_cap (progs c)) ps (index + 1)" .
  from lt cb c ih show ?case
    by (subst tryNext_at.simps, subst tryNext.simps) (simp add: Let_def)
qed

lemma playSound_at_wrapped:
  "proc \<in> set (playSound_at S progs now platform options) \<Longrightarrow>
   \<exists>t c. proc = lifetime progs (killAfterTimeout t (execFile progs t c))"
  by (auto simp: playSound_at_def dest: tryNext_at_wrapped split: if_splits)

lemma playSound_at_calls:
  "map call (playSound_at S progs now platform options) =
     playSound S (\<lambda>c. result_within_cap (progs c)) platform options"
  using wrapped_cases [OF refl, of progs now]
  by (simp add: playSound_at_def playSound_def tryLinuxPlayers_def tryNext_at_calls)

text \<open>
  C5. Every child that \<open>playSound\<close> makes (the one of \<open>afplay\<close> on macOS, each
  candidate tried on Linux, the one of \<open>powershell\<close> on Windows) is handed to
  \<open>killAfterTimeout\<close> when it is made. If its process never exits by itself, or would
  exit only later than 20000 ms after the child was made, \<open>proc.kill()\<close> is called
  exactly once, 20000 ms after the child was made, and the signal reaches the process.
  If the process exits by itself earlier than that (after 5000 ms, say), \<open>proc.kill()\<close>
  is never called: the exit listener has cleared the timer, and no timer is left armed.
  In no case is \<open>proc.kill()\<close> called sooner than 20000 ms after the child was made.
  The children made are those of \<open>playSound\<close>, each program reporting to the callback
  what it does when cut off at the ceiling.
\<close>

theorem spawned_children_killed_only_on_overrun:
  "(\<forall>proc \<in> set (playSound_at String_number progs now platform options).
      (\<forall>code. progs (call proc) = Runs None code \<longrightarrow>
         kill_calls proc = [started_at proc + 20000] \<and> killed proc)
    \<and> (\<forall>d code. progs (call proc) = Runs (Some d) code \<and> 20000 < d \<longrightarrow>
         kill_calls proc = [started_at proc + 20000] \<and> killed proc)
    \<and> (\<forall>d code. progs (call proc) = Runs (Some d) code \<and> d < 20000 \<longrightarrow>
         kill_calls proc = [] \<and> \<not> killed proc \<and> timer proc = None)
    \<and> (\<forall>t \<in> set (kill_calls proc). started_at proc + 20000 \<le> t))
   \<and> map call (playSound_at String_number progs now platform options) =
       playSound String_number (\<lambda>c. result_within_cap (progs c)) platform options"
proof (rule conjI)
  show "\<forall>proc \<in> set (playSound_at String_number progs now platform options).
      (\<forall>code. progs (call proc) = Runs None code \<longrightarrow>
         kill_calls proc = [started_at proc + 20000] \<and> killed proc)
    \<and> (\<forall>d code. progs (call proc) = Runs (Some d) code \<and> 20000 < d \<longrightarrow>
         kill_calls proc = [started_at proc + 20000] \<and> killed proc)
    \<and> (\<forall>d code. progs (call proc) = Runs (Some d) code \<and> d < 20000 \<longrightarrow>
         kill_calls proc = [] \<and> \<not> killed proc \<and> timer proc = None)
    \<and> (\<forall>t \<in> set (kill_calls proc). started_at proc + 20000 \<le> t)"
  proof (rule ballI)
    fix proc assume "proc \<in> set (playSound_at String_number progs now platform options)"
    from playSound_at_wrapped [OF this] obtain t c where
      p: "proc = lifetime progs (killAfterTimeout t (execFile progs t c))" by blast
    from wrapped_cases [OF p] show
      "(\<forall>code. progs (call proc) = Runs None code \<longrightarrow>
         kill_calls proc = [started_at proc + 20000] \<and> killed proc)
    \<and> (\<forall>d code. progs (call proc) = Runs (Some d) code \<and> 20000 < d \<longrightarrow>
         kill_calls proc = [started_at proc + 20000] \<and> killed proc)
    \<and> (\<forall>d code. progs (call proc) = Runs (Some d) code \<and> d < 20000 \<longrightarrow>
         kill_calls proc = [] \<and> \<not> killed proc \<and> timer proc = None)
    \<and> (\<forall>t \<in> set (kill_calls proc). started_at proc + 20000 \<le> t)"
      by simp
  qed
next
  show "map call (playSound_at String_number progs now platform options) =
       playSound String_number (\<lambda>c. result_within_cap (progs c)) platform options"
    by (rule playSound_at_calls)
qed

theorem spawned_children_killed_only_on_overrun_witness:
  "map (\<lambda>proc. (cmd (call proc), started_at proc, kill_calls proc))
     (playSound_at (\<lambda>v. ''80'') example_programs 1000 ''linux''
        \<lparr>filePath = ''/ext/media/sounds/faah.mp3'', volume = 80\<rparr>) =
     [(''paplay'', 1000, [21000]), (''aplay'', 1000, [21000]), (''mpv'', 21000, [])]
   \<and> map call (playSound_at (\<lambda>v. ''80'') example_programs 1000 ''linux''
        \<lparr>filePath = ''/ext/media/sounds/faah.mp3'', volume = 80\<rparr>) =
      playSound (\<lambda>v. ''80'') (\<lambda>c. result_within_cap (example_programs c)) ''linux''
        \<lparr>filePath = ''/ext/media/sounds/faah.mp3'', volume = 80\<rparr>"
proof -
  let ?ps = "players (\<lambda>v. ''80'') ''/ext/media/sounds/faah.mp3'' 80"
  have n: "length ?ps = 3" by (simp add: players_def)
  have c0: "cmd (?ps ! 0) = ''paplay''" by (simp add: players_def)
  have c1: "cmd (?ps ! Suc 0) = ''aplay''" by (simp add: players_def)
  have c2: "cmd (?ps ! Suc (Suc 0)) = ''mpv''" by (simp add: players_def)
  have t3: "tryNext_at example_programs ?ps (Suc (Suc (Suc 0))) t = []" for t
    by (subst tryNext_at.simps) (simp add: n)
  have t2: "map (\<lambda>proc. (cmd (call proc), started_at proc, kill_calls proc))
              (tryNext_at example_programs ?ps (Suc (Suc 0)) 21000) = [(''mpv'', 21000, [])]"
    by (subst tryNext_at.simps)
       (simp add: n c2 example_programs_def Let_def timer_defs callback_def callback_err_def t3)
  have t1: "map (\<lambda>proc. (cmd (call proc), started_at proc, kill_calls proc))
              (tryNext_at example_programs ?ps (Suc 0) 1000) =
            [(''aplay'', 1000, [21000]), (''mpv'', 21000, [])]"
    by (subst tryNext_at.simps)
       (simp add: n c1 example_programs_def Let_def timer_defs callback_def callback_err_def t2)
  have t0: "map (\<lambda>proc. (cmd (call proc), started_at proc, kill_calls proc))
              (tryNext_at example_programs ?ps 0 1000) =
            [(''paplay'', 1000, [21000]), (''aplay'', 1000, [21000]), (''mpv'', 21000, [])]"
    by (subst tryNext_at.simps)
       (simp add: n c0 example_programs_def Let_def timer_defs callback_def callback_err_def t1)
  from spawned_children_killed_only_on_overrun [of "\<lambda>v. ''80''" example_programs 1000 "''linux''"
      "\<lparr>filePath = ''/ext/media/sounds/faah.mp3'', volume = 80\<rparr>"] t0
  show ?thesis
    by (simp add: playSound_at_def)
qed

text \<open>
  C7. For volumes \<open>0 \<le> v \<le> w \<le> 100\<close>, the macOS player \<open>afplay\<close> is passed the rendering
  of \<open>max 0 v / 50\<close> as its \<open>-v\<close> argument; this value equals \<open>v / 50\<close>, lies between
  0 and 2, and does not decrease when the volume grows from \<open>v\<close> to \<open>w\<close>.
\<close>

theorem afplay_volume_monotone_bounded:
  assumes "0 \<le> v" and "v \<le> w" and "w \<le> 100"
  shows "playSound String_number run ''darwin'' \<lparr>filePath = fp, volume = v\<rparr> =
           [\<lparr>cmd = ''afplay'', args = [''-v'', String_number (afplay_volume v), fp]\<rparr>]
         \<and> afplay_volume v = max 0 v / 50
         \<and> afplay_volume v = v / 50
         \<and> 0 \<le> afplay_volume v \<and> afplay_volume v \<le> 2
         \<and> afplay_volume v \<le> afplay_volume w \<and> afplay_volume w \<le> 2"
  using assms by (auto simp: playSound_def afplay_volume_def divide_right_mono)

theorem afplay_volume_monotone_bounded_witness:
  "afplay_volume 80 = 8 / 5 \<and> afplay_volume 80 \<le> afplay_volume 100 \<and> afplay_volume 100 \<le> 2
   \<and> 0 \<le> afplay_volume 80"
  using afplay_volume_monotone_bounded [of 80 100]
  by simp

text \<open>
  C10. On Windows the volume has no effect on what \<open>playSound\<close> starts: for every file
  path, with or without the extension \<open>.wav\<close>, and any two volumes, the command and its
  arguments are the same, namely those of \<open>playWindows\<close>, which is not given the volume.
\<close>

theorem windows_ignores_volume:
  "playSound String_number run ''win32'' \<lparr>filePath = fp, volume = v1\<rparr> =
     playSound String_number run ''win32'' \<lparr>filePath = fp, volume = v2\<rparr>
   \<and> playSound String_number run ''win32'' \<lparr>filePath = fp, volume = v1\<rparr> = [playWindows fp]"
  by (simp add: playSound_def)

end
